theory Spec2Isabelle
  imports Main
begin

section \<open>Session and conversation state of the mentor front end\<close>

text \<open>
  A shallow embedding of the state logic of \<^verbatim>\<open>src/frontend/app/page.tsx\<close>
  (component \<^verbatim>\<open>MentorApp\<close>): the initializer that loads the saved conversations
  from \<^verbatim>\<open>localStorage\<close>, the handlers \<^verbatim>\<open>handleAsk\<close>,
  \<^verbatim>\<open>handleNewConversation\<close>, \<^verbatim>\<open>handleLoadConversation\<close>,
  \<^verbatim>\<open>saveConversationTitle\<close>, \<^verbatim>\<open>handleDeleteConversation\<close>, and the timer of
  \<^verbatim>\<open>streamExplanation\<close>.

  A JavaScript string is a \<^typ>\<open>string\<close>, one element per UTF-16 code unit (the 8-bit
  \<^typ>\<open>char\<close> covers the code units below 256). \<^verbatim>\<open>null\<close> and \<^verbatim>\<open>undefined\<close>
  are \<^term>\<open>None\<close>. React state is a record that each handler takes and returns; the
  values a handler reads are those of the render it was created in, which is the record
  it is given.
\<close>

subsection \<open>JavaScript strings\<close>

text \<open>
  \<^verbatim>\<open>String.prototype.trim\<close> strips white space and line terminators from both ends.
  Below code unit 256 these are TAB, LF, VT, FF, CR, SPACE and NBSP.
\<close>

definition is_ws :: "char \<Rightarrow> bool" where
  "is_ws c = (of_char c \<in> {9, 10, 11, 12, 13, 32, 160 :: nat})"

definition trim :: "string \<Rightarrow> string" where
  "trim s = rev (dropWhile is_ws (rev (dropWhile is_ws s)))"

text \<open>Truthiness of a value that is a string, \<^verbatim>\<open>null\<close> or \<^verbatim>\<open>undefined\<close>:
  only a non-empty string is truthy.\<close>

definition truthy :: "string option \<Rightarrow> bool" where
  "truthy v = (case v of None \<Rightarrow> False | Some s \<Rightarrow> s \<noteq> [])"

text \<open>\<^verbatim>\<open>s || null\<close> and \<^verbatim>\<open>s || undefined\<close> for a string \<^verbatim>\<open>s\<close>.\<close>

definition or_null :: "string \<Rightarrow> string option" where
  "or_null s = (if s \<noteq> [] then Some s else None)"

subsection \<open>Data model\<close>

datatype SkillLevel = Beginner | Intermediate | Pro

record AskResponse =
  tldr :: string
  explanation :: string
  steps :: "(string \<times> string) list option"
  fixed_code :: "string option"
  diff :: "string option"
  context_used :: "string option"
  conversation_id :: "string option"

record ChatTurn =
  turn_id :: string
  turn_question :: string
  turn_code :: "string option"
  turn_errorMsg :: "string option"
  turn_skill :: SkillLevel
  turn_response :: AskResponse

text \<open>
  \<^verbatim>\<open>SavedConversation\<close>. The type of the turns is a parameter: the handlers store
  \<^typ>\<open>ChatTurn\<close> values, while the load initializer keeps whatever array the storage
  held (the source's cast to \<^verbatim>\<open>ChatTurn[]\<close> checks nothing).
\<close>

record 't SavedConversation =
  conv_id :: string
  conv_conversationId :: "string option"
  conv_title :: string
  conv_createdAt :: int
  conv_turns :: "'t list"

subsection \<open>Parsed JSON\<close>

text \<open>
  The value \<^verbatim>\<open>JSON.parse\<close> returns. An object is the list of its own properties;
  the payload of a number is passed through by the code and never inspected, and is
  an integer here (time stamps in milliseconds).
\<close>

datatype json =
    JNull
  | JBool bool
  | JNum int
  | JStr string
  | JArr "json list"
  | JObj "(string \<times> json) list"

text \<open>
  Property read \<^verbatim>\<open>c.k\<close> on a value other than \<^verbatim>\<open>null\<close>, for the names the
  initializer reads (\<^verbatim>\<open>id\<close>, \<^verbatim>\<open>conversationId\<close>, \<^verbatim>\<open>conversation_id\<close>,
  \<^verbatim>\<open>title\<close>, \<^verbatim>\<open>createdAt\<close>, \<^verbatim>\<open>turns\<close>): no prototype defines them, so
  only an object can have one; everything else gives \<^verbatim>\<open>undefined\<close>. On \<^verbatim>\<open>null\<close>
  the read throws a TypeError, which the caller below handles before it reads.
\<close>

fun get_prop :: "json \<Rightarrow> string \<Rightarrow> json option" where
  "get_prop (JObj kvs) k = map_of kvs k"
| "get_prop _ k = None"

subsection \<open>Loading the saved conversations\<close>

text \<open>
  What the initializer reads from outside: whether \<^verbatim>\<open>window\<close> exists, the
  \<^verbatim>\<open>localStorage\<close> slots, \<^verbatim>\<open>JSON.parse\<close> (\<^term>\<open>None\<close> when it throws), the
  identifier fallback (\<^verbatim>\<open>crypto.randomUUID()\<close>, or the composite of
  \<^verbatim>\<open>Date.now()\<close> and \<^verbatim>\<open>Math.random()\<close>) as the sequence of the values its
  successive calls return, and \<^verbatim>\<open>Date.now()\<close> as the value it returns while the
  element at a given index is mapped.
\<close>

record load_env =
  has_window :: bool
  getItem :: "string \<Rightarrow> string option"
  JSON_parse :: "string \<Rightarrow> json option"
  fallback_id :: "nat \<Rightarrow> string"
  Date_now :: "nat \<Rightarrow> int"

text \<open>
  The callback of \<^verbatim>\<open>parsed.map\<close> on one element \<^verbatim>\<open>c\<close>, with the set
  \<^verbatim>\<open>seenIds\<close>, the number \<open>k\<close> of identifiers generated so far and the index \<open>i\<close>
  of the element. It returns the conversation, the new \<^verbatim>\<open>seenIds\<close> and the new
  count; \<^term>\<open>None\<close> is the TypeError of reading a property of \<^verbatim>\<open>null\<close>.
\<close>

definition sanitize ::
  "load_env \<Rightarrow> string set \<Rightarrow> nat \<Rightarrow> nat \<Rightarrow> json
     \<Rightarrow> (json SavedConversation \<times> string set \<times> nat) option" where
  "sanitize env seenIds k i c =
     (if c = JNull then None
      else
        let id0 = (case get_prop c ''id'' of
                     Some (JStr s) \<Rightarrow> (if length s > 0 then s else [])
                   | _ \<Rightarrow> []);
            regenerate = (id0 = [] \<or> id0 \<in> seenIds);
            ident = (if regenerate then fallback_id env k else id0);
            k' = (if regenerate then Suc k else k);
            conversationId =
              (case get_prop c ''conversationId'' of
                 Some (JStr s) \<Rightarrow> Some s
               | _ \<Rightarrow> (case get_prop c ''conversation_id'' of
                          Some (JStr s) \<Rightarrow> Some s
                        | _ \<Rightarrow> None));
            title = (case get_prop c ''title'' of
                       Some (JStr s) \<Rightarrow> (if length (trim s) > 0 then s else ''Conversation'')
                     | _ \<Rightarrow> ''Conversation'');
            createdAt = (case get_prop c ''createdAt'' of
                           Some (JNum n) \<Rightarrow> n
                         | _ \<Rightarrow> Date_now env i);
            turns = (case get_prop c ''turns'' of
                       Some (JArr ts) \<Rightarrow> ts
                     | _ \<Rightarrow> [])
        in Some (\<lparr>conv_id = ident, conv_conversationId = conversationId,
                   conv_title = title, conv_createdAt = createdAt, conv_turns = turns\<rparr>,
                 insert ident seenIds, k'))"

text \<open>\<^verbatim>\<open>parsed.map(...)\<close>: the elements in order; an exception in one call ends
  the whole map.\<close>

fun map_sanitize ::
  "load_env \<Rightarrow> string set \<Rightarrow> nat \<Rightarrow> nat \<Rightarrow> json list
     \<Rightarrow> json SavedConversation list option" where
  "map_sanitize env seenIds k i [] = Some []"
| "map_sanitize env seenIds k i (c # cs) =
     (case sanitize env seenIds k i c of
        None \<Rightarrow> None
      | Some (conv, seenIds', k') \<Rightarrow>
          (case map_sanitize env seenIds' k' (Suc i) cs of
             None \<Rightarrow> None
           | Some convs \<Rightarrow> Some (conv # convs)))"

text \<open>
  The initializer of \<^verbatim>\<open>conversations\<close>. Every exception inside \<^verbatim>\<open>try\<close>
  (from \<^verbatim>\<open>JSON.parse\<close> or from the map) is caught and gives the empty array.
\<close>

definition load :: "load_env \<Rightarrow> json SavedConversation list" where
  "load env =
     (if \<not> has_window env then []
      else case getItem env ''mentor_conversations'' of
        None \<Rightarrow> []
      | Some raw \<Rightarrow>
          if raw = [] then []
          else (case JSON_parse env raw of
                  None \<Rightarrow> []
                | Some (JArr parsed) \<Rightarrow>
                    (case map_sanitize env {} 0 0 parsed of
                       None \<Rightarrow> []
                     | Some convs \<Rightarrow> convs)
                | Some _ \<Rightarrow> []))"

text \<open>The elements of the persisted array, when the storage holds one.\<close>

definition persisted_elems :: "load_env \<Rightarrow> json list" where
  "persisted_elems env =
     (case getItem env ''mentor_conversations'' of
        None \<Rightarrow> []
      | Some raw \<Rightarrow> (case JSON_parse env raw of Some (JArr parsed) \<Rightarrow> parsed | _ \<Rightarrow> []))"

text \<open>The usable identifier an element carries: its \<^verbatim>\<open>id\<close> when that is a string.\<close>

definition stored_id :: "json \<Rightarrow> string option" where
  "stored_id c = (case get_prop c ''id'' of Some (JStr s) \<Rightarrow> Some s | _ \<Rightarrow> None)"

text \<open>
  The condition under which the claim about the load pass wants a new identifier, in
  the specification's words: the identifier of the element is missing (not a string),
  blank, or already seen in this pass.
\<close>

definition needs_new_id :: "string set \<Rightarrow> json \<Rightarrow> bool" where
  "needs_new_id seenIds c =
     (case stored_id c of None \<Rightarrow> True | Some s \<Rightarrow> s = [] \<or> s \<in> seenIds)"

text \<open>
  Whether, along the pass over the array, every identifier that the fallback returns is
  new with respect to the \<^verbatim>\<open>seenIds\<close> of that moment. The code does not test this;
  it is a property of the random source on the run.
\<close>

fun generated_ids_fresh ::
  "load_env \<Rightarrow> string set \<Rightarrow> nat \<Rightarrow> nat \<Rightarrow> json list \<Rightarrow> bool" where
  "generated_ids_fresh env seenIds k i [] = True"
| "generated_ids_fresh env seenIds k i (c # cs) =
     (case sanitize env seenIds k i c of
        None \<Rightarrow> True
      | Some (conv, seenIds', k') \<Rightarrow>
          (if needs_new_id seenIds c then fallback_id env k \<notin> seenIds else True)
          \<and> generated_ids_fresh env seenIds' k' (Suc i) cs)"

subsection \<open>The state of the component\<close>

text \<open>
  The \<^verbatim>\<open>useState\<close> cells of \<^verbatim>\<open>MentorApp\<close>, the \<^verbatim>\<open>localStorage\<close> slot
  \<^verbatim>\<open>conversationId\<close> that the handlers write, and the reveal timers started so far
  (full text and turn id of each \<^verbatim>\<open>streamExplanation\<close> call). The slot
  \<^verbatim>\<open>mentor_conversations\<close> is written by an effect after every change of
  \<^verbatim>\<open>conversations\<close>, outside the handlers.
\<close>

record app_state =
  question :: string
  code :: string
  errorMsg :: string
  skill :: SkillLevel
  showCodeInput :: bool
  showErrorInput :: bool
  editingConversationId :: "string option"
  editTitleValue :: string
  conversationId :: "string option"
  chat :: "ChatTurn list"
  conversations :: "ChatTurn SavedConversation list"
  sidebarOpen :: bool
  loading :: bool
  errorText :: "string option"
  ls_conversationId :: "string option"
  reveals :: "(string \<times> string) list"

subsection \<open>Asking a question\<close>

text \<open>The argument of \<^verbatim>\<open>askMentor\<close>, which is the JSON body of the request.\<close>

record ask_params =
  p_question :: string
  p_code_snippet :: "string option"
  p_error_message :: "string option"
  p_skill_level :: SkillLevel
  p_conversation_id :: "string option"

definition ask_params_of :: "app_state \<Rightarrow> ask_params" where
  "ask_params_of st =
     \<lparr>p_question = question st,
      p_code_snippet = or_null (code st),
      p_error_message = or_null (errorMsg st),
      p_skill_level = skill st,
      p_conversation_id = conversationId st\<rparr>"

text \<open>The turn that \<^verbatim>\<open>handleAsk\<close> appends for the response \<open>data\<close>.\<close>

definition new_turn :: "app_state \<Rightarrow> string \<Rightarrow> AskResponse \<Rightarrow> ChatTurn" where
  "new_turn st turnId data =
     \<lparr>turn_id = turnId,
      turn_question = question st,
      turn_code = or_null (code st),
      turn_errorMsg = or_null (errorMsg st),
      turn_skill = skill st,
      turn_response = data\<lparr>explanation := []\<rparr>\<rparr>"

definition generic_error :: string where
  "generic_error = ''Something went wrong while calling the mentor API.''"

text \<open>
  \<^verbatim>\<open>handleAsk\<close>. The awaited call is the parameter \<open>askMentor\<close>: \<^term>\<open>Inl\<close> is a
  rejected promise (network failure, or a status that is not ok) with its message,
  \<^term>\<open>Inr\<close> the parsed body. \<open>turnId\<close> is the identifier generated for the new turn.
  The message of a failure goes to \<^verbatim>\<open>console.error\<close> only.
\<close>

definition handleAsk ::
  "(ask_params \<Rightarrow> string + AskResponse) \<Rightarrow> string \<Rightarrow> app_state \<Rightarrow> app_state" where
  "handleAsk askMentor turnId st =
     (if trim (question st) = [] then st
      else
        let st1 = st\<lparr>loading := True, errorText := None\<rparr> in
        (case askMentor (ask_params_of st) of
           Inl err \<Rightarrow>
             st1\<lparr>errorText := Some generic_error, loading := False\<rparr>
         | Inr data \<Rightarrow>
             let st2 = (if \<not> truthy (conversationId st) \<and> truthy (conversation_id data)
                        then st1\<lparr>conversationId := conversation_id data,
                                 ls_conversationId := conversation_id data\<rparr>
                        else st1);
                 fullExplanation = explanation data;
                 st3 = st2\<lparr>chat := chat st2 @ [new_turn st turnId data]\<rparr>;
                 st4 = st3\<lparr>question := [], code := [], errorMsg := [],
                           showCodeInput := False, showErrorInput := False\<rparr>;
                 st5 = st4\<lparr>reveals := reveals st4 @ [(fullExplanation, turnId)]\<rparr>
             in st5\<lparr>loading := False\<rparr>))"

text \<open>
  The two halves of \<^verbatim>\<open>handleAsk\<close> around its \<^verbatim>\<open>await\<close>. The first runs when
  the question is not blank. The second runs when the promise settles, with the outcome
  of the call: the values it reads (\<^verbatim>\<open>conversationId\<close>, \<^verbatim>\<open>question\<close>,
  \<^verbatim>\<open>code\<close>, \<^verbatim>\<open>errorMsg\<close>, \<^verbatim>\<open>skill\<close>) are those of the render in which the
  request was sent, the record \<open>captured\<close>, while its setters act on the state \<open>cur\<close>
  of the moment, which other handlers may have changed meanwhile.
\<close>

definition handleAsk_begin :: "app_state \<Rightarrow> app_state" where
  "handleAsk_begin st = st\<lparr>loading := True, errorText := None\<rparr>"

definition handleAsk_resume ::
  "app_state \<Rightarrow> string + AskResponse \<Rightarrow> string \<Rightarrow> app_state \<Rightarrow> app_state" where
  "handleAsk_resume captured outcome turnId cur =
     (case outcome of
        Inl err \<Rightarrow>
          cur\<lparr>errorText := Some generic_error, loading := False\<rparr>
      | Inr data \<Rightarrow>
          let st2 = (if \<not> truthy (conversationId captured) \<and> truthy (conversation_id data)
                     then cur\<lparr>conversationId := conversation_id data,
                              ls_conversationId := conversation_id data\<rparr>
                     else cur);
              fullExplanation = explanation data;
              st3 = st2\<lparr>chat := chat st2 @ [new_turn captured turnId data]\<rparr>;
              st4 = st3\<lparr>question := [], code := [], errorMsg := [],
                        showCodeInput := False, showErrorInput := False\<rparr>;
              st5 = st4\<lparr>reveals := reveals st4 @ [(fullExplanation, turnId)]\<rparr>
          in st5\<lparr>loading := False\<rparr>)"

subsection \<open>The reveal timer\<close>


text \<open>The update one tick applies to \<^verbatim>\<open>chat\<close>, for the value \<open>index\<close> has after
  its increment; \<^verbatim>\<open>fullText.slice(0, index)\<close> is \<^term>\<open>take index fullText\<close>.\<close>

definition set_explanation :: "string \<Rightarrow> string \<Rightarrow> ChatTurn list \<Rightarrow> ChatTurn list" where
  "set_explanation turnId visible prev =
     map (\<lambda>t. if turn_id t = turnId
              then t\<lparr>turn_response := (turn_response t)\<lparr>explanation := visible\<rparr>\<rparr>
              else t) prev"




subsection \<open>Conversations\<close>

text \<open>The title \<^verbatim>\<open>handleNewConversation\<close> gives the snapshot, from the first turn.\<close>

definition snapshot_title :: "ChatTurn \<Rightarrow> string" where
  "snapshot_title firstTurn =
     (let baseTitle = (if length (trim (turn_question firstTurn)) > 0
                       then trim (turn_question firstTurn)
                       else ''New conversation'')
      in if length baseTitle > 60 then take 57 baseTitle @ ''...'' else baseTitle)"

text \<open>The reset that ends \<^verbatim>\<open>handleNewConversation\<close> and, under its condition,
  \<^verbatim>\<open>handleDeleteConversation\<close> (the same seven statements in both).\<close>

definition reset_session :: "app_state \<Rightarrow> app_state" where
  "reset_session st =
     st\<lparr>conversationId := None, ls_conversationId := None, chat := [],
        question := [], code := [], errorMsg := [], errorText := None\<rparr>"

text \<open>\<^verbatim>\<open>handleNewConversation\<close>; \<open>storageId\<close> is the identifier generated for the
  snapshot and \<open>now\<close> the value of \<^verbatim>\<open>Date.now()\<close>.\<close>

definition handleNewConversation :: "string \<Rightarrow> int \<Rightarrow> app_state \<Rightarrow> app_state" where
  "handleNewConversation storageId now st =
     (let st1 = (case chat st of
                   [] \<Rightarrow> st
                 | firstTurn # _ \<Rightarrow>
                     let newConv = \<lparr>conv_id = storageId,
                                    conv_conversationId = conversationId st,
                                    conv_title = snapshot_title firstTurn,
                                    conv_createdAt = now,
                                    conv_turns = chat st\<rparr>
                     in st\<lparr>conversations := newConv # conversations st\<rparr>)
      in reset_session st1)"

definition handleLoadConversation :: "ChatTurn SavedConversation \<Rightarrow> app_state \<Rightarrow> app_state" where
  "handleLoadConversation conv st =
     st\<lparr>chat := conv_turns conv,
        conversationId := conv_conversationId conv,
        ls_conversationId := (if truthy (conv_conversationId conv)
                              then conv_conversationId conv else None),
        sidebarOpen := False\<rparr>"

definition startEditConversationTitle ::
  "ChatTurn SavedConversation \<Rightarrow> app_state \<Rightarrow> app_state" where
  "startEditConversationTitle conv st =
     st\<lparr>editingConversationId := Some (conv_id conv), editTitleValue := conv_title conv\<rparr>"

definition cancelEditConversationTitle :: "app_state \<Rightarrow> app_state" where
  "cancelEditConversationTitle st = st\<lparr>editingConversationId := None, editTitleValue := []\<rparr>"

definition saveConversationTitle :: "string \<Rightarrow> app_state \<Rightarrow> app_state" where
  "saveConversationTitle ident st =
     (let trimmed = trim (editTitleValue st);
          st1 = (if trimmed = []
                 then st\<lparr>conversations :=
                          map (\<lambda>c. if conv_id c = ident
                                   then c\<lparr>conv_title := ''Untitled conversation''\<rparr> else c)
                            (conversations st)\<rparr>
                 else st\<lparr>conversations :=
                          map (\<lambda>c. if conv_id c = ident then c\<lparr>conv_title := trimmed\<rparr> else c)
                            (conversations st)\<rparr>)
      in st1\<lparr>editingConversationId := None, editTitleValue := []\<rparr>)"

definition handleDeleteConversation :: "ChatTurn SavedConversation \<Rightarrow> app_state \<Rightarrow> app_state" where
  "handleDeleteConversation conv st =
     (let st1 = st\<lparr>conversations :=
                     filter (\<lambda>c. conv_id c \<noteq> conv_id conv) (conversations st)\<rparr>
      in if truthy (conversationId st) \<and> conv_conversationId conv = conversationId st
         then reset_session st1
         else st1)"

subsection \<open>Runs of the component\<close>

text \<open>
  The state of a run: the React state and the requests in flight, each as the render
  state its \<^verbatim>\<open>handleAsk\<close> captured, oldest first.
\<close>

record run_state =
  app :: app_state
  pending :: "app_state list"

text \<open>
  What can happen in a run: the \<^verbatim>\<open>onChange\<close> handlers of the inputs and of the
  skill selector, the two panel buttons, the send button or the Enter key, the
  settling of the oldest request in flight (with its outcome and the id generated for
  the turn), one tick of a reveal timer (turn id and visible text), the handlers of
  the conversation list and the opening and closing of the sidebar.
\<close>

datatype session_event =
    SetQuestion string
  | SetCode string
  | SetErrorMsg string
  | SetSkill SkillLevel
  | ToggleCodeInput
  | ToggleErrorInput
  | Send
  | Settle "string + AskResponse" string
  | Tick string string
  | SetSidebarOpen bool
  | StartEditTitle "ChatTurn SavedConversation"
  | SetEditTitleValue string
  | CancelEditTitle
  | SaveTitle string
  | NewConversation string int
  | LoadConversation "ChatTurn SavedConversation"
  | DeleteConversation "ChatTurn SavedConversation"

text \<open>
  The send button is disabled, and the Enter key ignored, while \<^verbatim>\<open>loading\<close> or
  when the question is blank; otherwise either calls \<^verbatim>\<open>handleAsk\<close>, whose first
  half runs at once and whose second half waits for the response.
\<close>

fun session_step :: "session_event \<Rightarrow> run_state \<Rightarrow> run_state" where
  "session_step (SetQuestion v) rs = rs\<lparr>app := (app rs)\<lparr>question := v\<rparr>\<rparr>"
| "session_step (SetCode v) rs = rs\<lparr>app := (app rs)\<lparr>code := v\<rparr>\<rparr>"
| "session_step (SetErrorMsg v) rs = rs\<lparr>app := (app rs)\<lparr>errorMsg := v\<rparr>\<rparr>"
| "session_step (SetSkill v) rs = rs\<lparr>app := (app rs)\<lparr>skill := v\<rparr>\<rparr>"
| "session_step ToggleCodeInput rs =
     rs\<lparr>app := (app rs)\<lparr>showCodeInput := \<not> showCodeInput (app rs)\<rparr>\<rparr>"
| "session_step ToggleErrorInput rs =
     rs\<lparr>app := (app rs)\<lparr>showErrorInput := \<not> showErrorInput (app rs)\<rparr>\<rparr>"
| "session_step Send rs =
     (if loading (app rs) \<or> trim (question (app rs)) = [] then rs
      else rs\<lparr>app := handleAsk_begin (app rs), pending := pending rs @ [app rs]\<rparr>)"
| "session_step (Settle outcome turnId) rs =
     (case pending rs of
        [] \<Rightarrow> rs
      | captured # rest \<Rightarrow>
          rs\<lparr>app := handleAsk_resume captured outcome turnId (app rs), pending := rest\<rparr>)"
| "session_step (Tick turnId visible) rs =
     rs\<lparr>app := (app rs)\<lparr>chat := set_explanation turnId visible (chat (app rs))\<rparr>\<rparr>"
| "session_step (SetSidebarOpen v) rs = rs\<lparr>app := (app rs)\<lparr>sidebarOpen := v\<rparr>\<rparr>"
| "session_step (StartEditTitle conv) rs =
     rs\<lparr>app := startEditConversationTitle conv (app rs)\<rparr>"
| "session_step (SetEditTitleValue v) rs = rs\<lparr>app := (app rs)\<lparr>editTitleValue := v\<rparr>\<rparr>"
| "session_step CancelEditTitle rs = rs\<lparr>app := cancelEditConversationTitle (app rs)\<rparr>"
| "session_step (SaveTitle ident) rs = rs\<lparr>app := saveConversationTitle ident (app rs)\<rparr>"
| "session_step (NewConversation storageId now) rs =
     rs\<lparr>app := handleNewConversation storageId now (app rs)\<rparr>"
| "session_step (LoadConversation conv) rs = rs\<lparr>app := handleLoadConversation conv (app rs)\<rparr>"
| "session_step (DeleteConversation conv) rs =
     rs\<lparr>app := handleDeleteConversation conv (app rs)\<rparr>"

definition session_run :: "session_event list \<Rightarrow> run_state \<Rightarrow> run_state" where
  "session_run evs rs = fold session_step evs rs"

text \<open>
  The events that leave the active session in place: all but the three handlers that
  end it or replace it (new conversation, load, delete).
\<close>

fun keeps_session :: "session_event \<Rightarrow> bool" where
  "keeps_session (NewConversation storageId now) = False"
| "keeps_session (LoadConversation conv) = False"
| "keeps_session (DeleteConversation conv) = False"
| "keeps_session ev = True"

text \<open>
  What holds of the requests in flight as long as the session stays in place: at most
  one, sent while \<^verbatim>\<open>loading\<close> is set, and the remote id it captured is the
  current one.
\<close>

definition one_in_flight :: "run_state \<Rightarrow> bool" where
  "one_in_flight rs =
     (length (pending rs) \<le> 1
      \<and> (pending rs = [] \<or> loading (app rs))
      \<and> list_all (\<lambda>captured. conversationId captured = conversationId (app rs)) (pending rs))"

section \<open>Example inputs\<close>

text \<open>
  A storage whose array holds an identifier twice, an empty identifier, an element
  that is not an object and an identifier that the fallback has returned by then; the
  fallback returns \<^verbatim>\<open>u\<close>, \<^verbatim>\<open>uu\<close>, \<^verbatim>\<open>uuu\<close>, ...
\<close>

definition env0 :: load_env where
  "env0 = \<lparr>has_window = True,
     getItem = (\<lambda>k. if k = ''mentor_conversations'' then Some ''[...]'' else None),
     JSON_parse = (\<lambda>raw. Some (JArr [JObj [(''id'', JStr ''a'')],
                                      JObj [(''id'', JStr ''a''), (''title'', JStr ''T'')],
                                      JObj [(''id'', JStr [])],
                                      JNum 7,
                                      JObj [(''id'', JStr ''u'')]])),
     fallback_id = (\<lambda>n. replicate (Suc n) CHR ''u''),
     Date_now = (\<lambda>i. 1000)\<rparr>"

text \<open>
  A storage that holds the identifier \<^verbatim>\<open>u\<close> and a blank one, with the same
  fallback, whose first result is \<^verbatim>\<open>u\<close>.
\<close>

definition env_dup :: load_env where
  "env_dup = \<lparr>has_window = True,
     getItem = (\<lambda>k. if k = ''mentor_conversations'' then Some ''[...]'' else None),
     JSON_parse = (\<lambda>raw. Some (JArr [JObj [(''id'', JStr ''u'')],
                                      JObj [(''id'', JStr [])]])),
     fallback_id = (\<lambda>n. replicate (Suc n) CHR ''u''),
     Date_now = (\<lambda>i. 1000)\<rparr>"

text \<open>A storage whose array holds \<^verbatim>\<open>null\<close> before a well-formed conversation.\<close>

definition env_null :: load_env where
  "env_null = \<lparr>has_window = True,
     getItem = (\<lambda>k. if k = ''mentor_conversations'' then Some ''[null,{...}]'' else None),
     JSON_parse = (\<lambda>raw. Some (JArr [JNull,
                     JObj [(''id'', JStr ''a''), (''conversationId'', JNull),
                           (''title'', JStr ''T''), (''createdAt'', JNum 1),
                           (''turns'', JArr [])]])),
     fallback_id = (\<lambda>n. replicate (Suc n) CHR ''u''),
     Date_now = (\<lambda>i. 1000)\<rparr>"

text \<open>The state of a freshly mounted component with empty storage, a response of the
  mentor API, a turn and a saved conversation.\<close>

definition st_initial :: app_state where
  "st_initial = \<lparr>question = [], code = [], errorMsg = [], skill = Beginner,
     showCodeInput = False, showErrorInput = False,
     editingConversationId = None, editTitleValue = [],
     conversationId = None, chat = [], conversations = [],
     sidebarOpen = False, loading = False, errorText = None,
     ls_conversationId = None, reveals = []\<rparr>"

definition resp0 :: AskResponse where
  "resp0 = \<lparr>tldr = ''short'', explanation = ''hello'', steps = None, fixed_code = None,
     diff = None, context_used = None, conversation_id = Some ''abc123''\<rparr>"

definition api_ok :: "ask_params \<Rightarrow> string + AskResponse" where
  "api_ok p = Inr resp0"

definition api_fail :: "ask_params \<Rightarrow> string + AskResponse" where
  "api_fail p = Inl ''Request failed with status 500''"

definition run_initial :: run_state where
  "run_initial = \<lparr>app = st_initial, pending = []\<rparr>"

definition turn0 :: ChatTurn where
  "turn0 = \<lparr>turn_id = ''t0'', turn_question = ''  What is a list?  '', turn_code = None,
     turn_errorMsg = None, turn_skill = Beginner, turn_response = resp0\<rparr>"

definition conv0 :: "ChatTurn SavedConversation" where
  "conv0 = \<lparr>conv_id = ''c0'', conv_conversationId = Some ''abc123'', conv_title = ''T'',
     conv_createdAt = 1, conv_turns = [turn0]\<rparr>"


section \<open>Properties of the load initializer\<close>

lemma id0_cases:
  "(case get_prop c ''id'' of Some (JStr s) \<Rightarrow> (if length s > 0 then s else []) | _ \<Rightarrow> []) =
   (case stored_id c of Some s \<Rightarrow> s | None \<Rightarrow> [])"
  by (simp add: stored_id_def split: option.splits json.splits)

lemma sanitize_SomeD:
  assumes "sanitize env seen k i c = Some (conv, seen', k')"
  shows "seen' = insert (conv_id conv) seen"
    and "(k' = k \<and> stored_id c = Some (conv_id conv) \<and> conv_id conv \<notin> seen)
         \<or> (k' = Suc k \<and> conv_id conv = fallback_id env k)"
proof -
  from assms have n: "c \<noteq> JNull" by (auto simp: sanitize_def)
  define id0 where "id0 = (case stored_id c of Some s \<Rightarrow> s | None \<Rightarrow> [])"
  have ci: "conv_id conv = (if id0 = [] \<or> id0 \<in> seen then fallback_id env k else id0)"
    and s': "seen' = insert (conv_id conv) seen"
    and k': "k' = (if id0 = [] \<or> id0 \<in> seen then Suc k else k)"
    using assms n unfolding sanitize_def id0_cases id0_def[symmetric] Let_def
    by auto
  show "seen' = insert (conv_id conv) seen" by (rule s')
  show "(k' = k \<and> stored_id c = Some (conv_id conv) \<and> conv_id conv \<notin> seen)
         \<or> (k' = Suc k \<and> conv_id conv = fallback_id env k)"
  proof (cases "id0 = [] \<or> id0 \<in> seen")
    case True
    then show ?thesis using ci k' by simp
  next
    case False
    then have "stored_id c = Some id0" by (auto simp: id0_def split: option.splits)
    then show ?thesis using False ci k' by simp
  qed
qed


lemma load_cases:
  "load env = [] \<or>
   (\<exists>raw parsed. getItem env ''mentor_conversations'' = Some raw
          \<and> JSON_parse env raw = Some (JArr parsed)
          \<and> map_sanitize env {} 0 0 parsed = Some (load env))"
  by (simp add: load_def split: option.splits json.splits)

lemma sanitize_needs_new:
  assumes "sanitize env seen k i c = Some (conv, seen', k')"
  shows "needs_new_id seen c \<Longrightarrow> conv_id conv = fallback_id env k"
    and "\<not> needs_new_id seen c \<Longrightarrow> stored_id c = Some (conv_id conv) \<and> conv_id conv \<notin> seen"
proof -
  from assms have n: "c \<noteq> JNull" by (auto simp: sanitize_def)
  define id0 where "id0 = (case stored_id c of Some s \<Rightarrow> s | None \<Rightarrow> [])"
  have r: "needs_new_id seen c = (id0 = [] \<or> id0 \<in> seen)"
    by (simp add: needs_new_id_def id0_def split: option.splits)
  have ci: "conv_id conv = (if id0 = [] \<or> id0 \<in> seen then fallback_id env k else id0)"
    using assms n unfolding sanitize_def id0_cases id0_def[symmetric] Let_def
    by auto
  show "needs_new_id seen c \<Longrightarrow> conv_id conv = fallback_id env k"
    using ci r by simp
  show "\<not> needs_new_id seen c \<Longrightarrow> stored_id c = Some (conv_id conv) \<and> conv_id conv \<notin> seen"
  proof -
    assume a: "\<not> needs_new_id seen c"
    then have "id0 \<noteq> [] \<and> id0 \<notin> seen" using r by simp
    moreover from this have "stored_id c = Some id0"
      by (auto simp: id0_def split: option.splits)
    ultimately show ?thesis using ci by simp
  qed
qed

lemma map_sanitize_distinct_iff:
  assumes "map_sanitize env seen k i cs = Some convs"
  shows "(distinct (map conv_id convs) \<and> set (map conv_id convs) \<inter> seen = {})
         = generated_ids_fresh env seen k i cs"
  using assms
proof (induction cs arbitrary: seen k i convs)
  case Nil
  then show ?case by simp
next
  case (Cons c cs)
  from Cons.prems obtain conv seen' k' rest where
    s: "sanitize env seen k i c = Some (conv, seen', k')"
    and r: "map_sanitize env seen' k' (Suc i) cs = Some rest"
    and convs: "convs = conv # rest"
    by (auto split: option.splits)
  have seen': "seen' = insert (conv_id conv) seen" by (rule sanitize_SomeD(1)[OF s])
  have ih: "(distinct (map conv_id rest) \<and> set (map conv_id rest) \<inter> seen' = {})
            = generated_ids_fresh env seen' k' (Suc i) cs"
    by (rule Cons.IH[OF r])
  have head: "(conv_id conv \<notin> seen)
              = (if needs_new_id seen c then fallback_id env k \<notin> seen else True)"
    using sanitize_needs_new[OF s] by (cases "needs_new_id seen c") auto
  have "(distinct (map conv_id convs) \<and> set (map conv_id convs) \<inter> seen = {})
        = (conv_id conv \<notin> seen
           \<and> (distinct (map conv_id rest) \<and> set (map conv_id rest) \<inter> seen' = {}))"
    unfolding convs seen' by auto
  also have "\<dots> = generated_ids_fresh env seen k i (c # cs)"
    using s ih head by simp
  finally show ?case .
qed

lemma map_sanitize_allocation:
  assumes "map_sanitize env seen k i cs = Some convs"
  shows "length convs = length cs
         \<and> (\<forall>n<length cs.
              if needs_new_id (seen \<union> conv_id ` set (take n convs)) (cs ! n)
              then \<exists>j. conv_id (convs ! n) = fallback_id env j
              else stored_id (cs ! n) = Some (conv_id (convs ! n)))"
  using assms
proof (induction cs arbitrary: seen k i convs)
  case Nil
  then show ?case by simp
next
  case (Cons c cs)
  from Cons.prems obtain conv seen' k' rest where
    s: "sanitize env seen k i c = Some (conv, seen', k')"
    and r: "map_sanitize env seen' k' (Suc i) cs = Some rest"
    and convs: "convs = conv # rest"
    by (auto split: option.splits)
  have seen': "seen' = insert (conv_id conv) seen" by (rule sanitize_SomeD(1)[OF s])
  note ih = Cons.IH[OF r]
  have len: "length convs = length (c # cs)" using ih convs by simp
  have "\<forall>n<length (c # cs).
              if needs_new_id (seen \<union> conv_id ` set (take n convs)) ((c # cs) ! n)
              then \<exists>j. conv_id (convs ! n) = fallback_id env j
              else stored_id ((c # cs) ! n) = Some (conv_id (convs ! n))"
  proof (intro allI impI)
    fix n assume n: "n < length (c # cs)"
    show "if needs_new_id (seen \<union> conv_id ` set (take n convs)) ((c # cs) ! n)
              then \<exists>j. conv_id (convs ! n) = fallback_id env j
              else stored_id ((c # cs) ! n) = Some (conv_id (convs ! n))"
    proof (cases n)
      case 0
      then show ?thesis using sanitize_needs_new[OF s] convs by auto
    next
      case (Suc m)
      then have m: "m < length cs" using n by simp
      have e: "seen \<union> conv_id ` set (take n convs) = seen' \<union> conv_id ` set (take m rest)"
        unfolding Suc convs seen' by auto
      from ih m have "if needs_new_id (seen' \<union> conv_id ` set (take m rest)) (cs ! m)
              then \<exists>j. conv_id (rest ! m) = fallback_id env j
              else stored_id (cs ! m) = Some (conv_id (rest ! m))" by blast
      then show ?thesis unfolding e unfolding Suc convs by simp
    qed
  qed
  with len show ?case by blast
qed

text \<open>
  C1 (as amended). For every persisted collection, an element whose identifier is
  missing, blank or already seen in the load pass is returned with an identifier from
  the fallback, and every other element with its stored identifier. The fallback's
  result is not compared with the identifiers seen so far, so the identifiers returned
  are pairwise distinct when every generated identifier is new at the moment it is
  generated, and, for a result that is not empty, only then. The claim as written
  asserts distinctness for every collection.
\<close>

theorem load_ids_distinct:
  "(\<forall>n<length (load env).
      if needs_new_id (conv_id ` set (take n (load env))) (persisted_elems env ! n)
      then \<exists>j. conv_id (load env ! n) = fallback_id env j
      else stored_id (persisted_elems env ! n) = Some (conv_id (load env ! n)))
   \<and> (generated_ids_fresh env {} 0 0 (persisted_elems env)
        \<longrightarrow> distinct (map conv_id (load env)))
   \<and> (load env \<noteq> [] \<and> distinct (map conv_id (load env))
        \<longrightarrow> generated_ids_fresh env {} 0 0 (persisted_elems env))"
  using load_cases[of env]
proof
  assume "load env = []"
  then show ?thesis by simp
next
  assume "\<exists>raw parsed. getItem env ''mentor_conversations'' = Some raw
          \<and> JSON_parse env raw = Some (JArr parsed)
          \<and> map_sanitize env {} 0 0 parsed = Some (load env)"
  then obtain raw parsed where
    g: "getItem env ''mentor_conversations'' = Some raw"
    and p: "JSON_parse env raw = Some (JArr parsed)"
    and m: "map_sanitize env {} 0 0 parsed = Some (load env)" by blast
  have e: "persisted_elems env = parsed" using g p by (simp add: persisted_elems_def)
  from map_sanitize_allocation[OF m] have a: "\<forall>n<length (load env).
      if needs_new_id (conv_id ` set (take n (load env))) (parsed ! n)
      then \<exists>j. conv_id (load env ! n) = fallback_id env j
      else stored_id (parsed ! n) = Some (conv_id (load env ! n))"
    by simp
  from map_sanitize_distinct_iff[OF m]
  have d: "distinct (map conv_id (load env)) = generated_ids_fresh env {} 0 0 parsed"
    by simp
  show ?thesis unfolding e using a d by blast
qed

theorem load_ids_distinct_witness:
  "map conv_id (load env0) = [''a'', ''u'', ''uu'', ''uuu'', ''uuuu'']
   \<and> generated_ids_fresh env0 {} 0 0 (persisted_elems env0)
   \<and> distinct (map conv_id (load env0))"
proof -
  have l: "map conv_id (load env0) = [''a'', ''u'', ''uu'', ''uuu'', ''uuuu'']"
    by (simp add: load_def env0_def sanitize_def Let_def)
  have f: "generated_ids_fresh env0 {} 0 0 (persisted_elems env0)"
    by (simp add: persisted_elems_def env0_def sanitize_def Let_def needs_new_id_def
        stored_id_def)
  from load_ids_distinct[of env0] f have "distinct (map conv_id (load env0))" by blast
  with l f show ?thesis by blast
qed

theorem load_generated_id_collides_counterexample:
  "map conv_id (load env_dup) = [''u'', ''u''] \<and> \<not> distinct (map conv_id (load env_dup))"
  by (simp add: load_def env_dup_def sanitize_def Let_def)

subsection \<open>Elements that are \<^verbatim>\<open>null\<close>\<close>

text \<open>
  The map fails as a whole exactly when an element is \<^verbatim>\<open>null\<close>; without one it
  returns a conversation for each element.
\<close>

lemma map_sanitize_null:
  "JNull \<in> set cs \<Longrightarrow> map_sanitize env seen k i cs = None"
proof (induction cs arbitrary: seen k i)
  case Nil
  then show ?case by simp
next
  case (Cons c cs)
  show ?case
  proof (cases "c = JNull")
    case True
    then show ?thesis by (simp add: sanitize_def)
  next
    case False
    with Cons.prems have "JNull \<in> set cs" by auto
    then show ?thesis using Cons.IH by (simp split: option.splits prod.splits)
  qed
qed

lemma sanitize_not_null:
  "c \<noteq> JNull \<Longrightarrow> \<exists>r. sanitize env seen k i c = Some r"
  by (simp add: sanitize_def Let_def)

lemma map_sanitize_length:
  "JNull \<notin> set cs \<Longrightarrow> \<exists>convs. map_sanitize env seen k i cs = Some convs \<and> length convs = length cs"
proof (induction cs arbitrary: seen k i)
  case Nil
  then show ?case by simp
next
  case (Cons c cs)
  then have "c \<noteq> JNull" by auto
  from sanitize_not_null[OF this] obtain conv seen' k' where
    s: "sanitize env seen k i c = Some (conv, seen', k')" by (metis prod_cases3)
  from Cons have "\<exists>convs. map_sanitize env seen' k' (Suc i) cs = Some convs \<and> length convs = length cs"
    by simp
  then show ?case using s by auto
qed

lemma load_length_no_null:
  assumes "has_window env" and "getItem env ''mentor_conversations'' = Some raw"
    and "raw \<noteq> []" and "JSON_parse env raw = Some (JArr parsed)"
    and "JNull \<notin> set parsed"
  shows "length (load env) = length parsed"
proof -
  from map_sanitize_length[OF assms(5)] obtain convs where
    "map_sanitize env {} 0 0 parsed = Some convs" and "length convs = length parsed"
    by blast
  then show ?thesis using assms(1-4) by (simp add: load_def)
qed

lemma load_null_element:
  assumes "JSON_parse env raw = Some (JArr parsed)"
    and "getItem env ''mentor_conversations'' = Some raw" and "JNull \<in> set parsed"
  shows "load env = []"
  using assms map_sanitize_null[OF assms(3)] by (simp add: load_def)

text \<open>
  C6. The load initializer never fails, absent or malformed data gives the empty
  sequence, and each element of a persisted array is repaired on its own, so that an
  array of well-formed and malformed elements gives one conversation per element.
  The code does not do the last part when a malformed element is \<^verbatim>\<open>null\<close>: for
  the array of \<^verbatim>\<open>null\<close> and one well-formed conversation it returns the empty
  sequence, and the well-formed conversation is lost.
\<close>

theorem load_null_element_discards_batch:
  "persisted_elems env_null =
     [JNull, JObj [(''id'', JStr ''a''), (''conversationId'', JNull),
                   (''title'', JStr ''T''), (''createdAt'', JNum 1), (''turns'', JArr [])]]
   \<and> load env_null = []"
  by (simp add: persisted_elems_def load_def env_null_def sanitize_def)

section \<open>Properties of the reveal timer\<close>









section \<open>Properties of asking a question\<close>

text \<open>
  C4. For a question that is not blank: when the call of the mentor API fails (it
  throws, or the status is not ok), no turn is appended and the generic error message
  is set; and whether the call succeeds or fails, \<^verbatim>\<open>loading\<close> is false when
  \<^verbatim>\<open>handleAsk\<close> returns.
\<close>

theorem handleAsk_failure:
  assumes "trim (question st) \<noteq> []"
  shows "(\<forall>err. askMentor (ask_params_of st) = Inl err \<longrightarrow>
            chat (handleAsk askMentor turnId st) = chat st
            \<and> errorText (handleAsk askMentor turnId st)
                = Some ''Something went wrong while calling the mentor API.'')
         \<and> loading (handleAsk askMentor turnId st) = False"
  using assms
  by (auto simp: handleAsk_def Let_def generic_error_def split: sum.splits)

theorem handleAsk_failure_witness:
  "chat (handleAsk api_fail ''t1''
           (st_initial\<lparr>question := ''q'', loading := True\<rparr>)) = []
   \<and> errorText (handleAsk api_fail ''t1''
           (st_initial\<lparr>question := ''q'', loading := True\<rparr>))
       = Some ''Something went wrong while calling the mentor API.''
   \<and> loading (handleAsk api_fail ''t1''
           (st_initial\<lparr>question := ''q'', loading := True\<rparr>)) = False"
proof -
  have h: "trim (question (st_initial\<lparr>question := ''q'', loading := True\<rparr>)) \<noteq> []"
    by (simp add: trim_def is_ws_def)
  show ?thesis
    using handleAsk_failure[OF h, of api_fail "''t1''"]
    by (simp add: st_initial_def api_fail_def)
qed

lemma handleAsk_split:
  "handleAsk askMentor turnId st =
     (if trim (question st) = [] then st
      else handleAsk_resume st (askMentor (ask_params_of st)) turnId (handleAsk_begin st))"
  by (simp add: handleAsk_def handleAsk_resume_def handleAsk_begin_def Let_def
      split: sum.splits)

lemma handleAsk_resume_binds:
  assumes "conversationId (handleAsk_resume captured outcome turnId cur) \<noteq> conversationId cur"
  shows "\<not> truthy (conversationId captured)
         \<and> (\<exists>data. outcome = Inr data \<and> truthy (conversation_id data)
               \<and> conversationId (handleAsk_resume captured outcome turnId cur)
                   = conversation_id data)"
  using assms
  by (cases outcome) (auto simp: handleAsk_resume_def Let_def split: if_splits)

lemma handleAsk_resume_keeps:
  "truthy (conversationId captured) \<Longrightarrow>
     conversationId (handleAsk_resume captured outcome turnId cur) = conversationId cur"
  using handleAsk_resume_binds by blast

lemma handleAsk_resume_loading:
  "loading (handleAsk_resume captured outcome turnId cur) = False"
  by (cases outcome) (simp_all add: handleAsk_resume_def Let_def)

lemma session_step_one_in_flight:
  assumes "keeps_session ev" and "one_in_flight rs"
  shows "one_in_flight (session_step ev rs)"
proof (cases ev)
  case Send
  then show ?thesis using assms(2)
    by (auto simp: one_in_flight_def handleAsk_begin_def)
next
  case (Settle outcome turnId)
  show ?thesis
  proof (cases "pending rs")
    case Nil
    then show ?thesis using assms(2) Settle by simp
  next
    case (Cons captured rest)
    then have "rest = []" using assms(2) by (simp add: one_in_flight_def)
    then show ?thesis using Settle Cons by (simp add: one_in_flight_def)
  qed
next
  case (SaveTitle ident)
  then show ?thesis using assms(2)
    by (simp add: one_in_flight_def saveConversationTitle_def Let_def)
qed (use assms in \<open>simp_all add: one_in_flight_def startEditConversationTitle_def
      cancelEditConversationTitle_def\<close>)

lemma session_run_one_in_flight:
  "list_all keeps_session evs \<Longrightarrow> one_in_flight rs \<Longrightarrow> one_in_flight (session_run evs rs)"
  unfolding session_run_def
  by (induction evs arbitrary: rs) (simp_all add: session_step_one_in_flight)

lemma session_step_bound:
  assumes "keeps_session ev"
    and "truthy (conversationId (app rs))"
    and "list_all (\<lambda>captured. truthy (conversationId captured)) (pending rs)"
  shows "conversationId (app (session_step ev rs)) = conversationId (app rs)
         \<and> list_all (\<lambda>captured. truthy (conversationId captured)) (pending (session_step ev rs))"
proof (cases ev)
  case Send
  then show ?thesis using assms(2,3) by (simp add: handleAsk_begin_def)
next
  case (Settle outcome turnId)
  show ?thesis
  proof (cases "pending rs")
    case Nil
    then show ?thesis using assms(3) Settle by simp
  next
    case (Cons captured rest)
    then have "truthy (conversationId captured)" using assms(3) by simp
    then show ?thesis using Settle Cons assms(3) by (simp add: handleAsk_resume_keeps)
  qed
next
  case (SaveTitle ident)
  then show ?thesis using assms(3) by (simp add: saveConversationTitle_def Let_def)
qed (use assms in \<open>simp_all add: startEditConversationTitle_def
      cancelEditConversationTitle_def\<close>)

lemma session_run_bound:
  assumes "list_all keeps_session evs"
    and "truthy (conversationId (app rs))"
    and "list_all (\<lambda>captured. truthy (conversationId captured)) (pending rs)"
  shows "conversationId (app (session_run evs rs)) = conversationId (app rs)"
  using assms unfolding session_run_def
proof (induction evs arbitrary: rs)
  case Nil
  then show ?case by simp
next
  case (Cons ev evs)
  from Cons.prems have k: "keeps_session ev" and ks: "list_all keeps_session evs" by simp_all
  note b = session_step_bound[OF k Cons.prems(2,3)]
  have "truthy (conversationId (app (session_step ev rs)))" using b Cons.prems(2) by simp
  from Cons.IH[OF ks this conjunct2[OF b]] b show ?case by simp
qed

text \<open>
  C2 (as amended). The second half of \<^verbatim>\<open>handleAsk\<close> changes the remote
  conversation id only when the id captured at the time the request was sent is
  \<^verbatim>\<open>null\<close> or the empty string and the id of the response is a non-empty string,
  and then to the id of the response; the same holds of a \<^verbatim>\<open>handleAsk\<close> that
  nothing interrupts. In a run that starts with no request in flight and in which the
  session is neither reset, replaced by a loaded conversation nor deleted, a remote id
  that is a non-empty string is kept through everything that follows, whatever ids
  the later responses carry. The claim as written says non-null where the code tests
  truthiness, and has no condition on what happens while a request is in flight.
\<close>

theorem remote_id_first_write_wins:
  "(conversationId (handleAsk_resume captured outcome turnId cur) \<noteq> conversationId cur
      \<longrightarrow> \<not> truthy (conversationId captured)
          \<and> (\<exists>data. outcome = Inr data \<and> truthy (conversation_id data)
                \<and> conversationId (handleAsk_resume captured outcome turnId cur)
                    = conversation_id data))
   \<and> (conversationId (handleAsk askMentor turnId st) \<noteq> conversationId st
      \<longrightarrow> \<not> truthy (conversationId st)
          \<and> (\<exists>data. askMentor (ask_params_of st) = Inr data \<and> truthy (conversation_id data)
                \<and> conversationId (handleAsk askMentor turnId st) = conversation_id data))
   \<and> (pending rs = [] \<and> list_all keeps_session (past @ later)
        \<and> truthy (conversationId (app (session_run past rs)))
      \<longrightarrow> conversationId (app (session_run (past @ later) rs))
            = conversationId (app (session_run past rs)))"
proof (intro conjI impI)
  assume "conversationId (handleAsk_resume captured outcome turnId cur) \<noteq> conversationId cur"
  from handleAsk_resume_binds[OF this]
  show "\<not> truthy (conversationId captured)"
    and "\<exists>data. outcome = Inr data \<and> truthy (conversation_id data)
                \<and> conversationId (handleAsk_resume captured outcome turnId cur)
                    = conversation_id data"
    by blast+
next
  assume a: "conversationId (handleAsk askMentor turnId st) \<noteq> conversationId st"
  then have nb: "trim (question st) \<noteq> []" by (auto simp: handleAsk_split)
  have c: "conversationId (handleAsk_begin st) = conversationId st"
    by (simp add: handleAsk_begin_def)
  from a nb c have "conversationId (handleAsk_resume st (askMentor (ask_params_of st)) turnId
                      (handleAsk_begin st)) \<noteq> conversationId (handleAsk_begin st)"
    by (simp add: handleAsk_split)
  from handleAsk_resume_binds[OF this] nb
  show "\<not> truthy (conversationId st)"
    and "\<exists>data. askMentor (ask_params_of st) = Inr data \<and> truthy (conversation_id data)
                \<and> conversationId (handleAsk askMentor turnId st) = conversation_id data"
    by (simp_all add: handleAsk_split)
next
  assume h: "pending rs = [] \<and> list_all keeps_session (past @ later)
        \<and> truthy (conversationId (app (session_run past rs)))"
  then have k1: "list_all keeps_session past" and k2: "list_all keeps_session later" by simp_all
  have "one_in_flight rs" using h by (simp add: one_in_flight_def)
  from session_run_one_in_flight[OF k1 this]
  have "list_all (\<lambda>captured. conversationId captured = conversationId (app (session_run past rs)))
          (pending (session_run past rs))"
    by (simp add: one_in_flight_def)
  then have p: "list_all (\<lambda>captured. truthy (conversationId captured))
          (pending (session_run past rs))"
    using h by (simp add: list_all_iff)
  have "session_run (past @ later) rs = session_run later (session_run past rs)"
    by (simp add: session_run_def)
  then show "conversationId (app (session_run (past @ later) rs))
            = conversationId (app (session_run past rs))"
    using session_run_bound[OF k2 _ p] h by simp
qed

theorem remote_id_first_write_wins_witness:
  "conversationId (app (session_run [SetQuestion ''q'', Send, Settle (Inr resp0) ''t1'']
       run_initial)) = Some ''abc123''
   \<and> conversationId (app (session_run
        ([SetQuestion ''q'', Send, Settle (Inr resp0) ''t1'']
         @ [SetQuestion ''again'', Send,
            Settle (Inr (resp0\<lparr>conversation_id := Some ''other''\<rparr>)) ''t2''])
        run_initial)) = Some ''abc123''"
proof -
  let ?evs1 = "[SetQuestion ''q'', Send, Settle (Inr resp0) ''t1'']"
  let ?evs2 = "[SetQuestion ''again'', Send,
                Settle (Inr (resp0\<lparr>conversation_id := Some ''other''\<rparr>)) ''t2'']"
  have c: "conversationId (app (session_run ?evs1 run_initial)) = Some ''abc123''"
    by (simp add: session_run_def run_initial_def st_initial_def handleAsk_begin_def
        handleAsk_resume_def Let_def resp0_def truthy_def trim_def is_ws_def)
  have h: "pending run_initial = [] \<and> list_all keeps_session (?evs1 @ ?evs2)
        \<and> truthy (conversationId (app (session_run ?evs1 run_initial)))"
    unfolding c by (simp add: run_initial_def truthy_def)
  from remote_id_first_write_wins[where rs = run_initial and past = ?evs1 and later = ?evs2] h
  have "conversationId (app (session_run (?evs1 @ ?evs2) run_initial))
            = conversationId (app (session_run ?evs1 run_initial))"
    by blast
  with c show ?thesis by simp
qed

theorem remote_id_replaced_counterexample:
  "conversationId (st_initial\<lparr>question := ''q'', conversationId := Some []\<rparr>) \<noteq> None
   \<and> conversationId (handleAsk api_ok ''t1''
        (st_initial\<lparr>question := ''q'', conversationId := Some []\<rparr>)) = Some ''abc123''
   \<and> conversationId (app (session_run
        [SetQuestion ''q'', Send, LoadConversation (conv0\<lparr>conv_conversationId := Some ''loaded''\<rparr>)]
        run_initial)) = Some ''loaded''
   \<and> conversationId (app (session_run
        [SetQuestion ''q'', Send, LoadConversation (conv0\<lparr>conv_conversationId := Some ''loaded''\<rparr>),
         Settle (Inr resp0) ''t1'']
        run_initial)) = Some ''abc123''"
  by (simp add: session_run_def run_initial_def st_initial_def handleAsk_begin_def
      handleAsk_resume_def handleAsk_def handleLoadConversation_def Let_def resp0_def
      api_ok_def conv0_def truthy_def trim_def is_ws_def)

lemma trim_nonempty: "trim s \<noteq> [] \<Longrightarrow> s \<noteq> []"
  by (auto simp: trim_def)

text \<open>
  C7 (as amended). The turn that \<^verbatim>\<open>handleAsk\<close> appends carries the question exactly
  as submitted, with its leading and trailing white space; its trimmed form is not
  empty, and so neither is the question. The claim as written says the field is the
  trimmed text.
\<close>

theorem handleAsk_turn_question:
  assumes "trim (question st) \<noteq> []" and "askMentor (ask_params_of st) = Inr data"
  shows "chat (handleAsk askMentor turnId st) = chat st @ [new_turn st turnId data]
         \<and> turn_question (last (chat (handleAsk askMentor turnId st))) = question st
         \<and> trim (turn_question (last (chat (handleAsk askMentor turnId st)))) \<noteq> []
         \<and> turn_question (last (chat (handleAsk askMentor turnId st))) \<noteq> []"
proof -
  have c: "chat (handleAsk askMentor turnId st) = chat st @ [new_turn st turnId data]"
    using assms by (simp add: handleAsk_def Let_def)
  then have q: "turn_question (last (chat (handleAsk askMentor turnId st))) = question st"
    by (simp add: new_turn_def)
  show ?thesis using c q assms(1) trim_nonempty by simp
qed

theorem handleAsk_turn_question_witness:
  "turn_question (last (chat (handleAsk api_ok ''t1''
       (st_initial\<lparr>question := '' a''\<rparr>)))) = '' a''"
proof -
  have h1: "trim (question (st_initial\<lparr>question := '' a''\<rparr>)) \<noteq> []"
    by (simp add: trim_def is_ws_def)
  have h2: "api_ok (ask_params_of (st_initial\<lparr>question := '' a''\<rparr>)) = Inr resp0"
    by (simp add: api_ok_def)
  from handleAsk_turn_question[of "st_initial\<lparr>question := '' a''\<rparr>" api_ok resp0 "''t1''",
      OF h1 h2]
  have "turn_question (last (chat (handleAsk api_ok ''t1''
          (st_initial\<lparr>question := '' a''\<rparr>))))
        = question (st_initial\<lparr>question := '' a''\<rparr>)"
    by blast
  then show ?thesis by simp
qed

theorem handleAsk_untrimmed_counterexample:
  "chat (handleAsk api_ok ''t1'' (st_initial\<lparr>question := '' a''\<rparr>))
     = [new_turn (st_initial\<lparr>question := '' a''\<rparr>) ''t1'' resp0]
   \<and> turn_question (last (chat (handleAsk api_ok ''t1''
        (st_initial\<lparr>question := '' a''\<rparr>)))) \<noteq> trim '' a''
   \<and> is_ws (hd (turn_question (last (chat (handleAsk api_ok ''t1''
        (st_initial\<lparr>question := '' a''\<rparr>))))))"
  by (simp add: handleAsk_def Let_def st_initial_def new_turn_def api_ok_def trim_def is_ws_def)

text \<open>
  C10. In the request body an empty code snippet or error message is \<^verbatim>\<open>null\<close> and a
  non-empty one is passed unchanged; in the appended turn the field of an empty input
  is absent and that of a non-empty input is the input.
\<close>

theorem handleAsk_empty_inputs_normalized:
  "p_code_snippet (ask_params_of st) = (if code st = [] then None else Some (code st))
   \<and> p_error_message (ask_params_of st) = (if errorMsg st = [] then None else Some (errorMsg st))
   \<and> (trim (question st) \<noteq> [] \<and> askMentor (ask_params_of st) = Inr data \<longrightarrow>
        chat (handleAsk askMentor turnId st) = chat st @ [new_turn st turnId data]
        \<and> turn_code (last (chat (handleAsk askMentor turnId st)))
            = (if code st = [] then None else Some (code st))
        \<and> turn_errorMsg (last (chat (handleAsk askMentor turnId st)))
            = (if errorMsg st = [] then None else Some (errorMsg st)))"
  by (simp add: ask_params_of_def or_null_def handleAsk_def Let_def new_turn_def)

theorem handleAsk_empty_inputs_normalized_witness:
  "p_code_snippet (ask_params_of (st_initial\<lparr>question := ''q'', errorMsg := ''boom''\<rparr>)) = None
   \<and> p_error_message (ask_params_of (st_initial\<lparr>question := ''q'', errorMsg := ''boom''\<rparr>))
       = Some ''boom''
   \<and> turn_code (last (chat (handleAsk api_ok ''t1''
        (st_initial\<lparr>question := ''q'', errorMsg := ''boom''\<rparr>)))) = None
   \<and> turn_errorMsg (last (chat (handleAsk api_ok ''t1''
        (st_initial\<lparr>question := ''q'', errorMsg := ''boom''\<rparr>)))) = Some ''boom''"
proof -
  let ?st = "st_initial\<lparr>question := ''q'', errorMsg := ''boom''\<rparr>"
  have h: "trim (question ?st) \<noteq> [] \<and> api_ok (ask_params_of ?st) = Inr resp0"
    by (simp add: trim_def is_ws_def api_ok_def)
  have c: "code ?st = []" and e: "errorMsg ?st = ''boom''"
    by (simp_all add: st_initial_def)
  note r = handleAsk_empty_inputs_normalized[of ?st api_ok resp0 "''t1''"]
  from r have 1: "p_code_snippet (ask_params_of ?st) = (if code ?st = [] then None else Some (code ?st))"
    and 2: "p_error_message (ask_params_of ?st)
             = (if errorMsg ?st = [] then None else Some (errorMsg ?st))"
    by blast+
  from r h have 3: "turn_code (last (chat (handleAsk api_ok ''t1'' ?st)))
            = (if code ?st = [] then None else Some (code ?st))"
    and 4: "turn_errorMsg (last (chat (handleAsk api_ok ''t1'' ?st)))
            = (if errorMsg ?st = [] then None else Some (errorMsg ?st))"
    by blast+
  show ?thesis unfolding 1 2 3 4 c e by simp
qed

section \<open>Properties of the conversation handlers\<close>

text \<open>
  C5 (as amended). Whatever the active session holds, after
  \<^verbatim>\<open>handleNewConversation\<close> the remote id is \<^verbatim>\<open>null\<close> (in the state and in the
  storage slot), the turns are empty, the question, code and error-message inputs are
  empty and the error is cleared; the two panel toggles keep their values. The claim
  as written counts the toggled panels among what is cleared.
\<close>

theorem handleNewConversation_resets:
  "conversationId (handleNewConversation storageId now st) = None
   \<and> ls_conversationId (handleNewConversation storageId now st) = None
   \<and> chat (handleNewConversation storageId now st) = []
   \<and> question (handleNewConversation storageId now st) = []
   \<and> code (handleNewConversation storageId now st) = []
   \<and> errorMsg (handleNewConversation storageId now st) = []
   \<and> errorText (handleNewConversation storageId now st) = None
   \<and> showCodeInput (handleNewConversation storageId now st) = showCodeInput st
   \<and> showErrorInput (handleNewConversation storageId now st) = showErrorInput st"
  by (simp add: handleNewConversation_def reset_session_def Let_def split: list.splits)

theorem handleNewConversation_panels_counterexample:
  "\<not> (conversationId (handleNewConversation ''s1'' 5 (st_initial\<lparr>showCodeInput := True\<rparr>)) = None
      \<and> chat (handleNewConversation ''s1'' 5 (st_initial\<lparr>showCodeInput := True\<rparr>)) = []
      \<and> question (handleNewConversation ''s1'' 5 (st_initial\<lparr>showCodeInput := True\<rparr>)) = []
      \<and> code (handleNewConversation ''s1'' 5 (st_initial\<lparr>showCodeInput := True\<rparr>)) = []
      \<and> errorMsg (handleNewConversation ''s1'' 5 (st_initial\<lparr>showCodeInput := True\<rparr>)) = []
      \<and> showCodeInput (handleNewConversation ''s1'' 5 (st_initial\<lparr>showCodeInput := True\<rparr>)) = False
      \<and> showErrorInput (handleNewConversation ''s1'' 5 (st_initial\<lparr>showCodeInput := True\<rparr>)) = False
      \<and> errorText (handleNewConversation ''s1'' 5 (st_initial\<lparr>showCodeInput := True\<rparr>)) = None)"
  by (simp add: handleNewConversation_def reset_session_def st_initial_def)

text \<open>
  C8. When the active turns are not empty, \<^verbatim>\<open>handleNewConversation\<close> prepends a
  snapshot whose title comes from the first turn's question: \<^verbatim>\<open>New conversation\<close>
  when the trimmed question is blank; the trimmed question itself when it is not blank
  and at most 60 long; its first 57 characters followed by three dots when it is longer
  than 60.
\<close>

theorem snapshot_title_derivation:
  assumes "chat st \<noteq> []"
  shows "conversations (handleNewConversation storageId now st)
           = \<lparr>conv_id = storageId, conv_conversationId = conversationId st,
               conv_title = snapshot_title (hd (chat st)), conv_createdAt = now,
               conv_turns = chat st\<rparr> # conversations st
         \<and> (trim (turn_question (hd (chat st))) = [] \<longrightarrow>
              conv_title (hd (conversations (handleNewConversation storageId now st)))
                = ''New conversation'')
         \<and> (trim (turn_question (hd (chat st))) \<noteq> []
              \<and> length (trim (turn_question (hd (chat st)))) \<le> 60 \<longrightarrow>
              conv_title (hd (conversations (handleNewConversation storageId now st)))
                = trim (turn_question (hd (chat st))))
         \<and> (length (trim (turn_question (hd (chat st)))) > 60 \<longrightarrow>
              conv_title (hd (conversations (handleNewConversation storageId now st)))
                = take 57 (trim (turn_question (hd (chat st)))) @ ''...'')"
proof -
  from assms obtain firstTurn rest where c: "chat st = firstTurn # rest"
    by (cases "chat st") auto
  have k: "conversations (handleNewConversation storageId now st)
           = \<lparr>conv_id = storageId, conv_conversationId = conversationId st,
               conv_title = snapshot_title firstTurn, conv_createdAt = now,
               conv_turns = chat st\<rparr> # conversations st"
    using c by (simp add: handleNewConversation_def reset_session_def Let_def)
  show ?thesis
    unfolding k using c
    by (auto simp: snapshot_title_def Let_def)
qed

theorem snapshot_title_derivation_witness:
  "conv_title (hd (conversations (handleNewConversation ''s1'' 5 (st_initial\<lparr>chat := [turn0]\<rparr>))))
     = ''What is a list?''"
proof -
  let ?st = "st_initial\<lparr>chat := [turn0]\<rparr>"
  have h: "chat ?st \<noteq> []" by simp
  have t: "trim (turn_question (hd (chat ?st))) = ''What is a list?''"
    by (simp add: turn0_def trim_def is_ws_def)
  from snapshot_title_derivation[OF h, of "''s1''" 5]
  have "trim (turn_question (hd (chat ?st))) \<noteq> []
          \<and> length (trim (turn_question (hd (chat ?st)))) \<le> 60 \<longrightarrow>
        conv_title (hd (conversations (handleNewConversation ''s1'' 5 ?st)))
          = trim (turn_question (hd (chat ?st)))"
    by blast
  then show ?thesis unfolding t by simp
qed

text \<open>
  C9 (as amended). \<^verbatim>\<open>handleDeleteConversation\<close> removes from the store every entry
  with the identifier of the given conversation and keeps the others in order. When
  the active remote id is a non-empty string and the conversation's remote id equals
  it, the active session is cleared as well (turns, remote id, inputs, error); in
  every other case nothing but the store changes. The claim as written says non-null
  where the code tests truthiness: with the empty string as both ids nothing is
  cleared.
\<close>

theorem handleDeleteConversation_effect:
  "conversations (handleDeleteConversation conv st)
     = filter (\<lambda>c. conv_id c \<noteq> conv_id conv) (conversations st)
   \<and> conv_id conv \<notin> conv_id ` set (conversations (handleDeleteConversation conv st))
   \<and> (truthy (conversationId st) \<and> conv_conversationId conv = conversationId st \<longrightarrow>
        chat (handleDeleteConversation conv st) = []
        \<and> conversationId (handleDeleteConversation conv st) = None
        \<and> ls_conversationId (handleDeleteConversation conv st) = None
        \<and> question (handleDeleteConversation conv st) = []
        \<and> code (handleDeleteConversation conv st) = []
        \<and> errorMsg (handleDeleteConversation conv st) = []
        \<and> errorText (handleDeleteConversation conv st) = None)
   \<and> (\<not> (truthy (conversationId st) \<and> conv_conversationId conv = conversationId st) \<longrightarrow>
        handleDeleteConversation conv st
          = st\<lparr>conversations := filter (\<lambda>c. conv_id c \<noteq> conv_id conv) (conversations st)\<rparr>)"
  by (auto simp: handleDeleteConversation_def reset_session_def Let_def)

theorem handleDeleteConversation_effect_witness:
  "conversations (handleDeleteConversation conv0
      (st_initial\<lparr>conversations := [conv0], conversationId := Some ''abc123'', chat := [turn0]\<rparr>)) = []
   \<and> chat (handleDeleteConversation conv0
      (st_initial\<lparr>conversations := [conv0], conversationId := Some ''abc123'', chat := [turn0]\<rparr>)) = []
   \<and> chat (handleDeleteConversation conv0
      (st_initial\<lparr>conversations := [conv0], conversationId := Some ''zzz'', chat := [turn0]\<rparr>)) = [turn0]"
  using handleDeleteConversation_effect[of conv0
      "st_initial\<lparr>conversations := [conv0], conversationId := Some ''abc123'', chat := [turn0]\<rparr>"]
    handleDeleteConversation_effect[of conv0
      "st_initial\<lparr>conversations := [conv0], conversationId := Some ''zzz'', chat := [turn0]\<rparr>"]
  by (simp add: conv0_def truthy_def)

theorem handleDeleteConversation_empty_id_counterexample:
  "conv_conversationId (conv0\<lparr>conv_conversationId := Some []\<rparr>) \<noteq> None
   \<and> conv_conversationId (conv0\<lparr>conv_conversationId := Some []\<rparr>)
       = conversationId (st_initial\<lparr>conversationId := Some [], chat := [turn0]\<rparr>)
   \<and> chat (handleDeleteConversation (conv0\<lparr>conv_conversationId := Some []\<rparr>)
        (st_initial\<lparr>conversationId := Some [], chat := [turn0]\<rparr>)) = [turn0]"
  by (simp add: handleDeleteConversation_def Let_def truthy_def st_initial_def)


end
